theory Spec2Isabelle
  imports Main "HOL-Library.Word"
begin

unbundle bit_operations_syntax

section \<open>Bytes, Python integers and Python strings\<close>

text \<open>
  The notebooks \<^verbatim>\<open>VDA.ipynb\<close> and \<^verbatim>\<open>DLL_Layer.ipynb\<close> are Python. A \<^verbatim>\<open>bytes\<close>
  object is a list of 8-bit words, a Python \<^verbatim>\<open>int\<close> is an \<open>int\<close> (sizes and byte values,
  which are never negative, are \<open>nat\<close>), and a Python \<^verbatim>\<open>str\<close> is the list of its Unicode
  code points. \<open>str_lit\<close> turns an ASCII literal into such a string and \<open>bytes_lit\<close> into
  the bytes object \<^verbatim>\<open>b"..."\<close>.
\<close>

type_synonym byte = "8 word"
type_synonym bytes = "byte list"
type_synonym pystr = "nat list"

definition str_lit :: "string \<Rightarrow> pystr" where
  "str_lit s = map of_char s"

definition bytes_lit :: "string \<Rightarrow> bytes" where
  "bytes_lit s = map of_char s"

datatype py_error =
    StructError
  | UnicodeDecodeError
  | UnicodeEncodeError
  | ConnectionRefusedError
  | ConnectionResetError

section \<open>The frame codec: \<^verbatim>\<open>can_frame_fmt = "=LB3x8s"\<close>\<close>

text \<open>
  \<^verbatim>\<open>struct.pack("=LB3x8s", can_id, dlc, data)\<close>: standard sizes, no alignment, the byte
  order of the machine (little-endian on the x86 and ARM hosts of SocketCAN, which is what
  is modelled here). \<^verbatim>\<open>L\<close> is an unsigned 32-bit integer and \<^verbatim>\<open>B\<close> an unsigned byte:
  an argument out of range raises \<^verbatim>\<open>struct.error\<close>. \<^verbatim>\<open>3x\<close> writes three zero bytes.
  \<^verbatim>\<open>8s\<close> writes exactly eight bytes: a longer argument is cut, a shorter one is filled
  with zero bytes.
\<close>

definition pack_L :: "int \<Rightarrow> bytes" where
  "pack_L n = [word_of_int n, word_of_int (n div 256),
               word_of_int (n div 65536), word_of_int (n div 16777216)]"

definition unpack_L :: "bytes \<Rightarrow> int" where
  "unpack_L bs = uint (bs ! 0) + 256 * uint (bs ! 1)
                 + 65536 * uint (bs ! 2) + 16777216 * uint (bs ! 3)"

definition pack_8s :: "bytes \<Rightarrow> bytes" where
  "pack_8s d = take 8 d @ replicate (8 - length d) 0"

definition struct_pack :: "int \<Rightarrow> int \<Rightarrow> bytes \<Rightarrow> py_error + bytes" where
  "struct_pack can_id dlc d =
     (if can_id < 0 \<or> 4294967296 \<le> can_id then Inl StructError
      else if dlc < 0 \<or> 256 \<le> dlc then Inl StructError
      else Inr (pack_L can_id @ [word_of_int dlc] @ replicate 3 0 @ pack_8s d))"

text \<open>
  \<^verbatim>\<open>struct.unpack("=LB3x8s", cf)\<close> raises \<^verbatim>\<open>struct.error\<close> unless \<^verbatim>\<open>cf\<close> has exactly 16
  bytes; otherwise it yields the identifier, the length byte and the 8 payload bytes, and
  skips bytes 5 to 7.
\<close>

definition struct_unpack :: "bytes \<Rightarrow> py_error + (int \<times> int \<times> bytes)" where
  "struct_unpack cf =
     (if length cf \<noteq> 16 then Inl StructError
      else Inr (unpack_L (take 4 cf), uint (cf ! 4), drop 8 cf))"

text \<open>\<^verbatim>\<open>data.ljust(8, b'\x00')\<close>\<close>

definition ljust8 :: "bytes \<Rightarrow> bytes" where
  "ljust8 d = d @ replicate (8 - length d) 0"

section \<open>The request: \<^verbatim>\<open>send_vin_request\<close>\<close>

text \<open>
  A raw CAN socket, as far as the notebook uses it: the frames that \<^verbatim>\<open>sock.recvfrom(16)\<close>
  will return, in order, and the frames handed to \<^verbatim>\<open>sock.send\<close> so far.
\<close>

record can_sock =
  rx :: "bytes list"
  tx :: "bytes list"

definition CAN_EFF_FLAG :: int where
  "CAN_EFF_FLAG = 0x80000000"

definition request_can_id :: int where
  "request_can_id = 0x18EA00F9 OR CAN_EFF_FLAG"

definition request_data :: bytes where
  "request_data = [0xEC, 0xFE, 0x00]"

definition send_vin_request :: "can_sock \<Rightarrow> py_error + can_sock" where
  "send_vin_request sock =
     (case struct_pack request_can_id 3 (ljust8 request_data) of
        Inl e \<Rightarrow> Inl e
      | Inr frame \<Rightarrow> Inr (sock\<lparr>tx := tx sock @ [frame]\<rparr>))"

section \<open>The reassembler: \<^verbatim>\<open>receive_bam_vin\<close>\<close>

text \<open>The local variables of \<^verbatim>\<open>receive_bam_vin\<close> that live across loop iterations.\<close>

record reasm =
  vin_bytes :: bytes
  total_length :: nat
  expected_packets :: nat
  collecting :: bool
  received_packets :: nat

definition initial :: reasm where
  "initial = \<lparr>vin_bytes = [], total_length = 0, expected_packets = 0,
              collecting = False, received_packets = 0\<rparr>"

definition expected_src :: int where
  "expected_src = 0x00"

definition arb_id_of :: "int \<Rightarrow> int" where
  "arb_id_of can_id = can_id AND 0x1FFFFFFF"

definition pgn_of :: "int \<Rightarrow> int" where
  "pgn_of can_id = drop_bit 8 (arb_id_of can_id) AND 0xFFFF"

definition src_of :: "int \<Rightarrow> int" where
  "src_of can_id = arb_id_of can_id AND 0xFF"

text \<open>Python's slice \<^verbatim>\<open>data[i:j]\<close> for \<open>0 \<le> i \<le> j\<close>.\<close>

definition pyslice :: "'a list \<Rightarrow> nat \<Rightarrow> nat \<Rightarrow> 'a list" where
  "pyslice xs i j = take (j - i) (drop i xs)"

text \<open>
  One pass through the body of the \<^verbatim>\<open>while True\<close> loop after the frame is decoded: the
  new values of the local variables, and whether \<^verbatim>\<open>break\<close> was reached. \<^verbatim>\<open>data\<close> always
  has 8 bytes (it comes out of \<open>struct_unpack\<close>), so the indexing never fails.
\<close>

definition on_frame :: "reasm \<Rightarrow> int \<Rightarrow> bytes \<Rightarrow> reasm \<times> bool" where
  "on_frame st can_id data =
     (let pgn = pgn_of can_id; src = src_of can_id in
      if pgn = 0xECFF \<and> data ! 0 = 0x20 \<and> src = expected_src
         \<and> pyslice data 5 8 = [0xEC, 0xFE, 0x00]
      then (st\<lparr>total_length := unat (data ! 1), expected_packets := unat (data ! 2),
               collecting := True, vin_bytes := [], received_packets := 0\<rparr>, False)
      else if pgn = 0xEBFF \<and> collecting st \<and> src = expected_src
      then (let st' = st\<lparr>vin_bytes := vin_bytes st @ pyslice data 1 8,
                           received_packets := received_packets st + 1\<rparr>
            in (st', total_length st' \<le> length (vin_bytes st')))
      else (st, False))"

text \<open>
  The loop. Each iteration takes the next frame from the socket. When no frame is left
  \<^verbatim>\<open>recvfrom\<close> never returns: the loop is \<open>Waiting\<close> with its local variables as they
  are. A frame that is not 16 bytes long makes \<^verbatim>\<open>struct.unpack\<close> raise, which ends the
  function. \<open>Complete\<close> is the \<^verbatim>\<open>break\<close>, with the frames that were not read.
\<close>

datatype loop_result =
    Complete reasm "bytes list"
  | Waiting reasm
  | Failed py_error

fun receive_loop :: "reasm \<Rightarrow> bytes list \<Rightarrow> loop_result" where
  "receive_loop st [] = Waiting st"
| "receive_loop st (cf # rest) =
     (case struct_unpack cf of
        Inl e \<Rightarrow> Failed e
      | Inr (can_id, dlc, data) \<Rightarrow>
          (case on_frame st can_id data of
             (st', True) \<Rightarrow> Complete st' rest
           | (st', False) \<Rightarrow> receive_loop st' rest))"

text \<open>\<^verbatim>\<open>bs.decode('ascii', errors='ignore')\<close>: bytes from 0x80 on are left out.\<close>

definition decode_ascii_ignore :: "bytes \<Rightarrow> pystr" where
  "decode_ascii_ignore bs = map unat (filter (\<lambda>b. b < 0x80) bs)"

text \<open>What a call can end in: a value, an exception, or no end at all.\<close>

datatype 'a outcome =
    Returned 'a
  | Raised py_error
  | Blocks

definition receive_bam_vin :: "bytes list \<Rightarrow> pystr outcome" where
  "receive_bam_vin frames =
     (case receive_loop initial frames of
        Complete st rest \<Rightarrow> Returned (decode_ascii_ignore (take 17 (vin_bytes st)))
      | Waiting st \<Rightarrow> Blocks
      | Failed e \<Rightarrow> Raised e)"

section \<open>Frame streams\<close>

text \<open>
  The frames the loop passes over: a frame that decodes and has a source address other
  than the expected one, or a PGN that is neither the transport-control nor the
  transport-data PGN, or the transport-control PGN without the control code 0x20 or
  without the target PGN in bytes 5 to 7.
\<close>

definition unmatched :: "bytes \<Rightarrow> bool" where
  "unmatched cf =
     (case struct_unpack cf of
        Inl e \<Rightarrow> False
      | Inr (cid, dlc, data) \<Rightarrow>
          src_of cid \<noteq> expected_src
          \<or> (pgn_of cid \<noteq> 0xECFF \<and> pgn_of cid \<noteq> 0xEBFF)
          \<or> (pgn_of cid = 0xECFF \<and> (data ! 0 \<noteq> 0x20 \<or> pyslice data 5 8 \<noteq> [0xEC, 0xFE, 0x00])))"

text \<open>
  Two raw frames that are the same except, at most, in the sequence number of a data
  packet (payload byte 0, byte 8 of the record, of a frame with the transport-data PGN) or
  in the packet count of a control packet (payload byte 2, byte 10 of the record, of a
  frame with the transport-control PGN and the control code 0x20).
\<close>

definition seq_or_count_variant :: "bytes \<Rightarrow> bytes \<Rightarrow> bool" where
  "seq_or_count_variant f g =
     (case struct_unpack f of
        Inl e \<Rightarrow> g = f
      | Inr (cid, dlc, data) \<Rightarrow>
          if pgn_of cid = 0xEBFF then g = f[8 := g ! 8]
          else if pgn_of cid = 0xECFF \<and> data ! 0 = 0x20 then g = f[10 := g ! 10]
          else g = f)"

text \<open>How many frames \<^verbatim>\<open>receive_bam_vin\<close> has read when it returns.\<close>

definition frames_read :: "bytes list \<Rightarrow> nat option" where
  "frames_read frames =
     (case receive_loop initial frames of
        Complete st rest \<Rightarrow> Some (length frames - length rest)
      | Waiting st \<Rightarrow> None
      | Failed e \<Rightarrow> None)"

text \<open>Two states of the loop that agree on everything but \<^verbatim>\<open>expected_packets\<close>.\<close>

definition same_but_count :: "reasm \<Rightarrow> reasm \<Rightarrow> bool" where
  "same_but_count st st' \<longleftrightarrow>
     vin_bytes st = vin_bytes st' \<and> total_length st = total_length st'
     \<and> collecting st = collecting st' \<and> received_packets st = received_packets st'"

fun same_result :: "loop_result \<Rightarrow> loop_result \<Rightarrow> bool" where
  "same_result (Complete st rest) (Complete st' rest') \<longleftrightarrow>
     same_but_count st st' \<and> length rest = length rest'"
| "same_result (Waiting st) (Waiting st') \<longleftrightarrow> same_but_count st st'"
| "same_result (Failed e) (Failed e') \<longleftrightarrow> e = e'"
| "same_result _ _ \<longleftrightarrow> False"

section \<open>The retrieval: \<^verbatim>\<open>get_vin_from_can\<close>\<close>

text \<open>
  \<^verbatim>\<open>get_vin_from_can\<close> opens a raw CAN socket, sends the request and runs the reassembler
  on what the socket receives. The argument is the sequence of frames the bus delivers to
  that socket. Opening and binding the socket are taken to succeed.
\<close>

definition get_vin_from_can :: "bytes list \<Rightarrow> pystr outcome" where
  "get_vin_from_can bus_frames =
     (case send_vin_request \<lparr>rx = bus_frames, tx = []\<rparr> of
        Inl e \<Rightarrow> Raised e
      | Inr can_sock \<Rightarrow> receive_bam_vin (rx can_sock))"

section \<open>Text on the TCP sessions: \<^verbatim>\<open>.decode()\<close> and \<^verbatim>\<open>.encode()\<close>\<close>

text \<open>
  \<^verbatim>\<open>bytes.decode()\<close> and \<^verbatim>\<open>str.encode()\<close> are UTF-8 with \<^verbatim>\<open>errors='strict'\<close>. The decoder
  accepts the well-formed byte sequences of the Unicode standard only (no overlong forms, no
  surrogates, nothing beyond U+10FFFF) and raises \<^verbatim>\<open>UnicodeDecodeError\<close> on anything else;
  the encoder raises \<^verbatim>\<open>UnicodeEncodeError\<close> on a surrogate.
\<close>

definition is_cont :: "byte \<Rightarrow> bool" where
  "is_cont b \<longleftrightarrow> 0x80 \<le> unat b \<and> unat b \<le> 0xBF"

definition cons_ok :: "nat \<Rightarrow> py_error + pystr \<Rightarrow> py_error + pystr" where
  "cons_ok c r = (case r of Inl e \<Rightarrow> Inl e | Inr cs \<Rightarrow> Inr (c # cs))"

fun utf8_decode :: "bytes \<Rightarrow> py_error + pystr" where
  "utf8_decode [] = Inr []"
| "utf8_decode (b # bs) =
     (let n = unat b in
      if n < 0x80 then cons_ok n (utf8_decode bs)
      else if 0xC2 \<le> n \<and> n \<le> 0xDF then
        (case bs of
           b1 # r \<Rightarrow>
             if is_cont b1
             then cons_ok ((n - 0xC0) * 64 + (unat b1 - 0x80)) (utf8_decode r)
             else Inl UnicodeDecodeError
         | _ \<Rightarrow> Inl UnicodeDecodeError)
      else if 0xE0 \<le> n \<and> n \<le> 0xEF then
        (case bs of
           b1 # b2 # r \<Rightarrow>
             if (if n = 0xE0 then 0xA0 else 0x80) \<le> unat b1
                \<and> unat b1 \<le> (if n = 0xED then 0x9F else 0xBF) \<and> is_cont b2
             then cons_ok ((n - 0xE0) * 4096 + (unat b1 - 0x80) * 64 + (unat b2 - 0x80))
                    (utf8_decode r)
             else Inl UnicodeDecodeError
         | _ \<Rightarrow> Inl UnicodeDecodeError)
      else if 0xF0 \<le> n \<and> n \<le> 0xF4 then
        (case bs of
           b1 # b2 # b3 # r \<Rightarrow>
             if (if n = 0xF0 then 0x90 else 0x80) \<le> unat b1
                \<and> unat b1 \<le> (if n = 0xF4 then 0x8F else 0xBF) \<and> is_cont b2 \<and> is_cont b3
             then cons_ok ((n - 0xF0) * 262144 + (unat b1 - 0x80) * 4096
                           + (unat b2 - 0x80) * 64 + (unat b3 - 0x80))
                    (utf8_decode r)
             else Inl UnicodeDecodeError
         | _ \<Rightarrow> Inl UnicodeDecodeError)
      else Inl UnicodeDecodeError)"

definition encode_char :: "nat \<Rightarrow> py_error + bytes" where
  "encode_char c =
     (if c < 0x80 then Inr [of_nat c]
      else if c < 0x800 then Inr [of_nat (0xC0 + c div 64), of_nat (0x80 + c mod 64)]
      else if 0xD800 \<le> c \<and> c \<le> 0xDFFF then Inl UnicodeEncodeError
      else if c < 0x10000 then
        Inr [of_nat (0xE0 + c div 4096), of_nat (0x80 + c div 64 mod 64), of_nat (0x80 + c mod 64)]
      else if c < 0x110000 then
        Inr [of_nat (0xF0 + c div 262144), of_nat (0x80 + c div 4096 mod 64),
             of_nat (0x80 + c div 64 mod 64), of_nat (0x80 + c mod 64)]
      else Inl UnicodeEncodeError)"

fun utf8_encode :: "pystr \<Rightarrow> py_error + bytes" where
  "utf8_encode [] = Inr []"
| "utf8_encode (c # cs) =
     (case encode_char c of
        Inl e \<Rightarrow> Inl e
      | Inr bs \<Rightarrow> (case utf8_encode cs of Inl e \<Rightarrow> Inl e | Inr r \<Rightarrow> Inr (bs @ r)))"

section \<open>The two servers of \<^verbatim>\<open>DLL_Layer.ipynb\<close>\<close>

text \<open>
  What one run of a server leaves behind: the arguments of \<^verbatim>\<open>conn.sendall\<close> in order
  (what is written back to the client), how often \<^verbatim>\<open>get_vin_from_can\<close> was called, the
  arguments of \<^verbatim>\<open>forward_sock.sendall\<close> in order, and how the \<^verbatim>\<open>with conn:\<close> block
  ended. \<open>Closed\<close>: the block ran to its end and closed the connection. \<open>Crashed e\<close>:
  the exception \<open>e\<close> left the block, which closes the connection all the same, and ended
  the server's thread. \<open>Hung\<close>: a call inside the block never returns, and the connection
  stays open.
\<close>

datatype ending = Closed | Crashed py_error | Hung

record session =
  replied :: "bytes list"
  retrievals :: nat
  forwarded :: "bytes list"
  ending :: ending

text \<open>
  \<^verbatim>\<open>actualdll_socket_server\<close>. \<open>sent\<close> is what the client has written to the connection
  when \<^verbatim>\<open>conn.recv(1024)\<close> returns (empty when the client closed without writing);
  \<^verbatim>\<open>recv\<close> returns at most 1024 bytes of it. \<open>bus_frames\<close> is what the bus delivers.
\<close>

definition actualdll_socket_server :: "bytes \<Rightarrow> bytes list \<Rightarrow> session" where
  "actualdll_socket_server sent bus_frames =
     (case utf8_decode (take 1024 sent) of
        Inl e \<Rightarrow> \<lparr>replied = [], retrievals = 0, forwarded = [], ending = Crashed e\<rparr>
      | Inr req \<Rightarrow>
          if req = str_lit ''VIN_REQUEST'' then
            (case get_vin_from_can bus_frames of
               Returned vin \<Rightarrow>
                 (case utf8_encode vin of
                    Inl e \<Rightarrow> \<lparr>replied = [], retrievals = 1, forwarded = [], ending = Crashed e\<rparr>
                  | Inr out \<Rightarrow>
                      \<lparr>replied = [out], retrievals = 1, forwarded = [], ending = Closed\<rparr>)
             | Raised e \<Rightarrow> \<lparr>replied = [], retrievals = 1, forwarded = [], ending = Crashed e\<rparr>
             | Blocks \<Rightarrow> \<lparr>replied = [], retrievals = 1, forwarded = [], ending = Hung\<rparr>)
          else \<lparr>replied = [], retrievals = 0, forwarded = [], ending = Closed\<rparr>)"

text \<open>
  The endpoint on port 1555 as the shim meets it, as a function of the bytes the shim
  writes to it. \<open>Refused\<close>: nothing listens, \<^verbatim>\<open>connect\<close> raises. \<open>Replies bs\<close>:
  \<open>bs\<close> is everything the endpoint writes before it closes (empty when it closes without
  an answer). \<open>Silent\<close>: it neither writes nor closes, so \<^verbatim>\<open>forward_sock.recv\<close> never
  returns.
\<close>

datatype peer = Refused | Replies bytes | Silent

text \<open>The text the shim puts in place of the VIN: \<^verbatim>\<open>real_vin[:10] + "HACKED123"\<close>.\<close>

definition modified_vin :: "pystr \<Rightarrow> pystr" where
  "modified_vin real_vin = take 10 real_vin @ str_lit ''HACKED123''"

definition shimdll_socket_server :: "bytes \<Rightarrow> (bytes \<Rightarrow> peer) \<Rightarrow> session" where
  "shimdll_socket_server sent downstream =
     (case utf8_decode (take 1024 sent) of
        Inl e \<Rightarrow> \<lparr>replied = [], retrievals = 0, forwarded = [], ending = Crashed e\<rparr>
      | Inr req \<Rightarrow>
          if req = str_lit ''VIN_REQUEST'' then
            (case downstream (bytes_lit ''VIN_REQUEST'') of
               Refused \<Rightarrow>
                 \<lparr>replied = [], retrievals = 0, forwarded = [],
                  ending = Crashed ConnectionRefusedError\<rparr>
             | Silent \<Rightarrow>
                 \<lparr>replied = [], retrievals = 0, forwarded = [bytes_lit ''VIN_REQUEST''],
                  ending = Hung\<rparr>
             | Replies bs \<Rightarrow>
                 (case utf8_decode (take 1024 bs) of
                    Inl e \<Rightarrow>
                      \<lparr>replied = [], retrievals = 0, forwarded = [bytes_lit ''VIN_REQUEST''],
                       ending = Crashed e\<rparr>
                  | Inr real_vin \<Rightarrow>
                      (case utf8_encode (modified_vin real_vin) of
                         Inl e \<Rightarrow>
                           \<lparr>replied = [], retrievals = 0,
                            forwarded = [bytes_lit ''VIN_REQUEST''], ending = Crashed e\<rparr>
                       | Inr out \<Rightarrow>
                           \<lparr>replied = [out], retrievals = 0,
                            forwarded = [bytes_lit ''VIN_REQUEST''], ending = Closed\<rparr>)))
          else \<lparr>replied = [], retrievals = 0, forwarded = [], ending = Closed\<rparr>)"

text \<open>
  \<^verbatim>\<open>actualdll_socket_server\<close> as the endpoint behind the shim: it answers with what it
  writes back, and stays silent when its retrieval never returns.
\<close>

definition actualdll_peer :: "bytes list \<Rightarrow> bytes \<Rightarrow> peer" where
  "actualdll_peer bus_frames sent =
     (let s = actualdll_socket_server sent bus_frames in
      if ending s = Hung then Silent else Replies (concat (replied s)))"

text \<open>
  What the client's \<^verbatim>\<open>s.recv(1024)\<close> ends in after a run of a server, given the bytes
  \<open>sent\<close> the client wrote. Bytes written back are returned, at most 1024 of them. With
  nothing written back: while the connection stays open the call never returns; when the
  server closed the connection after reading all of \<open>sent\<close>, the call returns the empty
  bytes object; when the server closed it with bytes of \<open>sent\<close> unread (it reads at most
  1024), the close is a reset and the call raises \<^verbatim>\<open>ConnectionResetError\<close>.
\<close>

definition client_recv :: "bytes \<Rightarrow> session \<Rightarrow> bytes outcome" where
  "client_recv sent s =
     (if concat (replied s) \<noteq> [] then Returned (take 1024 (concat (replied s)))
      else if ending s = Hung then Blocks
      else if 1024 < length sent then Raised ConnectionResetError
      else Returned [])"

section \<open>The frame codec round trip\<close>

lemma unpack_pack_L:
  assumes "0 \<le> n" "n < 4294967296"
  shows "unpack_L (pack_L n) = n"
proof -
  define a where "a = n div 256"
  define b where "b = a div 256"
  define c where "c = b div 256"
  have n: "n = n mod 256 + 256 * a" by (simp add: a_def)
  have a: "a = a mod 256 + 256 * b" by (simp add: b_def)
  have b: "b = b mod 256 + 256 * c" by (simp add: c_def)
  have b': "n div 65536 = b" unfolding b_def a_def by (simp add: zdiv_zmult2_eq)
  have c': "n div 16777216 = c" unfolding c_def b_def a_def by (simp add: zdiv_zmult2_eq)
  have c0: "0 \<le> c" "c < 256" using assms c' by simp_all
  have "unpack_L (pack_L n)
        = n mod 256 + 256 * (a mod 256) + 65536 * (b mod 256) + 16777216 * (c mod 256)"
    unfolding unpack_L_def pack_L_def by (simp add: uint_word_of_int a_def[symmetric] b' c')
  also have "c mod 256 = c" using c0 by simp
  finally show ?thesis using n a b by linarith
qed

lemma replicate_3: "replicate 3 x = [x, x, x]"
  by (simp add: eval_nat_numeral)

lemma replicate_5: "replicate 5 x = [x, x, x, x, x]"
  by (simp add: eval_nat_numeral)

lemma length_pack_8s: "length (pack_8s d) = 8"
  by (auto simp add: pack_8s_def)

text \<open>
  C4. For every identifier that fits the 32-bit field, every length from 0 to 8 and every
  payload of at most 8 bytes, \<open>struct_pack\<close> succeeds with a 16-byte record: the
  identifier in bytes 0 to 3, the length in byte 4, zero in bytes 5 to 7, and the payload
  filled with zero bytes to 8 bytes in bytes 8 to 15. \<open>struct_unpack\<close> of that record
  gives back the identifier, the length and the filled payload.
\<close>

theorem frame_codec_round_trip:
  assumes "0 \<le> ident" "ident < 2 ^ 32" "0 \<le> len" "len \<le> 8" "length payload \<le> 8"
  shows "\<exists>cf. struct_pack ident len payload = Inr cf \<and> length cf = 16
           \<and> take 4 cf = pack_L ident \<and> cf ! 4 = word_of_int len
           \<and> pyslice cf 5 8 = [0, 0, 0]
           \<and> drop 8 cf = payload @ replicate (8 - length payload) 0
           \<and> struct_unpack cf = Inr (ident, len, payload @ replicate (8 - length payload) 0)"
proof -
  let ?cf = "pack_L ident @ [word_of_int len] @ replicate 3 0 @ pack_8s payload"
  have p: "struct_pack ident len payload = Inr ?cf"
    using assms by (simp add: struct_pack_def)
  have l4: "length (pack_L ident) = 4" by (simp add: pack_L_def)
  have l: "length ?cf = 16" by (simp add: l4 length_pack_8s)
  have t: "take 4 ?cf = pack_L ident" by (simp add: l4)
  have n: "?cf ! 4 = word_of_int len" by (simp add: nth_append l4)
  have d: "drop 8 ?cf = pack_8s payload" by (simp add: l4)
  have u: "uint (word_of_int len :: 8 word) = len"
    using assms by (simp add: uint_word_of_int)
  have r: "pyslice ?cf 5 8 = [0, 0, 0]" by (simp add: pyslice_def l4 replicate_3)
  have "struct_unpack ?cf = Inr (ident, len, pack_8s payload)"
    unfolding struct_unpack_def using assms l t n d u unpack_pack_L [of ident] by simp
  with p l t n r d assms show ?thesis by (simp add: pack_8s_def)
qed

theorem frame_codec_round_trip_witness:
  "struct_pack 0x98EBFF00 8 [1, 0x41, 0x42] = Inr [0x00, 0xFF, 0xEB, 0x98, 8, 0, 0, 0, 1, 0x41, 0x42, 0, 0, 0, 0, 0]
   \<and> struct_unpack [0x00, 0xFF, 0xEB, 0x98, 8, 0, 0, 0, 1, 0x41, 0x42, 0, 0, 0, 0, 0]
       = Inr (0x98EBFF00, 8, [1, 0x41, 0x42, 0, 0, 0, 0, 0])"
proof -
  have p: "struct_pack 0x98EBFF00 8 [1, 0x41, 0x42]
           = Inr [0x00, 0xFF, 0xEB, 0x98, 8, 0, 0, 0, 1, 0x41, 0x42, 0, 0, 0, 0, 0]"
    by (simp add: struct_pack_def pack_L_def pack_8s_def replicate_3 replicate_5)
  show ?thesis
    using frame_codec_round_trip [of "0x98EBFF00" 8 "[1, 0x41, 0x42]"] p
    by (simp add: replicate_5)
qed

section \<open>The reassembler, frame by frame\<close>

lemma struct_unpack_Inr:
  "struct_unpack cf = Inr (cid, dlc, data) \<Longrightarrow>
   length cf = 16 \<and> length data = 8 \<and> data = drop 8 cf"
  by (auto simp add: struct_unpack_def split: if_splits)

lemma on_frame_control:
  "pgn_of cid = 0xECFF \<Longrightarrow> src_of cid = 0 \<Longrightarrow> data ! 0 = 0x20 \<Longrightarrow>
   pyslice data 5 8 = [0xEC, 0xFE, 0x00] \<Longrightarrow>
   on_frame st cid data =
     (\<lparr>vin_bytes = [], total_length = unat (data ! 1), expected_packets = unat (data ! 2),
       collecting = True, received_packets = 0\<rparr>, False)"
  by (simp add: on_frame_def expected_src_def)

lemma on_frame_data:
  "pgn_of cid = 0xEBFF \<Longrightarrow> src_of cid = 0 \<Longrightarrow> collecting st \<Longrightarrow>
   on_frame st cid data =
     (st\<lparr>vin_bytes := vin_bytes st @ pyslice data 1 8,
         received_packets := received_packets st + 1\<rparr>,
      total_length st \<le> length (vin_bytes st) + length (pyslice data 1 8))"
  by (simp add: on_frame_def expected_src_def Let_def)

lemma on_frame_ignored:
  assumes "src_of cid \<noteq> expected_src \<or> (pgn_of cid \<noteq> 0xECFF \<and> pgn_of cid \<noteq> 0xEBFF)
     \<or> (pgn_of cid = 0xECFF \<and> (data ! 0 \<noteq> 0x20 \<or> pyslice data 5 8 \<noteq> [0xEC, 0xFE, 0x00]))
     \<or> (pgn_of cid = 0xEBFF \<and> \<not> collecting st)"
  shows "on_frame st cid data = (st, False)"
  using assms by (auto simp add: on_frame_def expected_src_def Let_def)

lemma on_frame_break_inv:
  "on_frame st cid data = (st', True) \<Longrightarrow>
   collecting st' \<and> total_length st' \<le> length (vin_bytes st')"
  by (auto simp add: on_frame_def Let_def split: if_splits)

lemma receive_loop_Complete_inv:
  "receive_loop st frames = Complete st' rest \<Longrightarrow>
   collecting st' \<and> total_length st' \<le> length (vin_bytes st')"
proof (induction frames arbitrary: st)
  case Nil
  then show ?case by simp
next
  case (Cons cf frames)
  then show ?case
    by (auto split: sum.splits prod.splits bool.splits dest: on_frame_break_inv)
qed

text \<open>
  C5. In every state of the reassembler, a decoded frame whose source address is not the
  expected one, or whose PGN is neither the transport-control nor the transport-data PGN,
  or which has the transport-control PGN but not the control code 0x20 or not the target
  PGN in bytes 5 to 7, changes no local variable of the loop and does not end it: the
  loop goes on with the next frame as if the frame had not been there.
\<close>

theorem unmatched_frame_ignored:
  assumes "struct_unpack cf = Inr (cid, dlc, data)"
    and "src_of cid \<noteq> expected_src
         \<or> (pgn_of cid \<noteq> 0xECFF \<and> pgn_of cid \<noteq> 0xEBFF)
         \<or> (pgn_of cid = 0xECFF \<and> (data ! 0 \<noteq> 0x20 \<or> pyslice data 5 8 \<noteq> [0xEC, 0xFE, 0x00]))"
  shows "on_frame st cid data = (st, False)
         \<and> receive_loop st (cf # rest) = receive_loop st rest"
proof -
  have "on_frame st cid data = (st, False)"
    using assms(2) by (intro on_frame_ignored) blast
  then show ?thesis using assms(1) by simp
qed

theorem unmatched_frame_ignored_witness:
  "struct_unpack [0x17, 0xFF, 0xEB, 0x98, 8, 0, 0, 0, 2, 0x36, 0x33, 0x33, 0x41, 0x31, 0x32, 0x33]
     = Inr (0x98EBFF17, 8, [2, 0x36, 0x33, 0x33, 0x41, 0x31, 0x32, 0x33])
   \<and> src_of 0x98EBFF17 \<noteq> expected_src
   \<and> on_frame \<lparr>vin_bytes = [0x31, 0x48, 0x47, 0x43, 0x4D, 0x38, 0x32], total_length = 17,
        expected_packets = 3, collecting = True, received_packets = 1\<rparr>
        0x98EBFF17 [2, 0x36, 0x33, 0x33, 0x41, 0x31, 0x32, 0x33]
      = (\<lparr>vin_bytes = [0x31, 0x48, 0x47, 0x43, 0x4D, 0x38, 0x32], total_length = 17,
          expected_packets = 3, collecting = True, received_packets = 1\<rparr>, False)
   \<and> receive_loop \<lparr>vin_bytes = [0x31, 0x48, 0x47, 0x43, 0x4D, 0x38, 0x32], total_length = 17,
        expected_packets = 3, collecting = True, received_packets = 1\<rparr>
        [[0x17, 0xFF, 0xEB, 0x98, 8, 0, 0, 0, 2, 0x36, 0x33, 0x33, 0x41, 0x31, 0x32, 0x33]]
      = Waiting \<lparr>vin_bytes = [0x31, 0x48, 0x47, 0x43, 0x4D, 0x38, 0x32], total_length = 17,
          expected_packets = 3, collecting = True, received_packets = 1\<rparr>"
proof -
  have u: "struct_unpack [0x17, 0xFF, 0xEB, 0x98, 8, 0, 0, 0, 2, 0x36, 0x33, 0x33, 0x41, 0x31, 0x32, 0x33]
     = Inr (0x98EBFF17, 8, [2, 0x36, 0x33, 0x33, 0x41, 0x31, 0x32, 0x33])"
    by (simp add: struct_unpack_def unpack_L_def)
  have s: "src_of 0x98EBFF17 \<noteq> expected_src"
    by (simp add: src_of_def arb_id_of_def expected_src_def)
  show ?thesis
    using unmatched_frame_ignored [OF u, of _ "[]"] u s by simp
qed

section \<open>Reassembly of a stream\<close>

lemma pyslice_1_8: "pyslice (s # c) (Suc 0) 8 = take 7 c"
  by (simp add: pyslice_def)

lemma decode_ascii_all: "\<forall>b\<in>set bs. b < 0x80 \<Longrightarrow> decode_ascii_ignore bs = map unat bs"
  by (simp add: decode_ascii_ignore_def)

text \<open>
  C3. A stream that starts with a matching control packet announcing a total length of 17
  in 3 packets, followed by three matching data packets whose chunks carry 7, 7 and 3
  ASCII bytes (the last chunk is filled to 7 bytes with padding): after the control packet
  alone, and after one or two of the data packets, \<^verbatim>\<open>receive_bam_vin\<close> has not returned;
  with the third data packet the loop ends, reads no frame after it, and the function
  returns the 17 characters of the three chunks in the order of arrival.
\<close>

theorem reassembly_17_in_3:
  assumes ctl: "struct_unpack cf = Inr (cid, dlc, [0x20, 17, 3, r3, r4, 0xEC, 0xFE, 0x00])"
              "pgn_of cid = 0xECFF" "src_of cid = expected_src"
    and d1: "struct_unpack f1 = Inr (id1, dlc1, s1 # c1)" "pgn_of id1 = 0xEBFF" "src_of id1 = expected_src"
    and d2: "struct_unpack f2 = Inr (id2, dlc2, s2 # c2)" "pgn_of id2 = 0xEBFF" "src_of id2 = expected_src"
    and d3: "struct_unpack f3 = Inr (id3, dlc3, s3 # c3 @ pad)" "pgn_of id3 = 0xEBFF" "src_of id3 = expected_src"
            "length c3 = 3"
    and ascii: "\<forall>b \<in> set (c1 @ c2 @ c3). b < 0x80"
  shows "receive_bam_vin [cf] = Blocks
       \<and> receive_bam_vin [cf, f1] = Blocks
       \<and> receive_bam_vin [cf, f1, f2] = Blocks
       \<and> receive_loop initial (cf # f1 # f2 # f3 # rest)
           = Complete \<lparr>vin_bytes = c1 @ c2 @ c3 @ pad, total_length = 17, expected_packets = 3,
                       collecting = True, received_packets = 3\<rparr> rest
       \<and> receive_bam_vin (cf # f1 # f2 # f3 # rest) = Returned (map unat (c1 @ c2 @ c3))
       \<and> length (map unat (c1 @ c2 @ c3)) = 17"
proof -
  define st0 where "st0 = \<lparr>vin_bytes = [], total_length = 17, expected_packets = 3,
                       collecting = True, received_packets = 0\<rparr>"
  define st1 where "st1 = st0\<lparr>vin_bytes := c1, received_packets := 1\<rparr>"
  define st2 where "st2 = st0\<lparr>vin_bytes := c1 @ c2, received_packets := 2\<rparr>"
  define st3 where "st3 = st0\<lparr>vin_bytes := c1 @ c2 @ c3 @ pad, received_packets := 3\<rparr>"
  have l1: "length c1 = 7" using struct_unpack_Inr [OF d1(1)] by simp
  have l2: "length c2 = 7" using struct_unpack_Inr [OF d2(1)] by simp
  have l3: "length (c3 @ pad) = 7" using struct_unpack_Inr [OF d3(1)] by simp
  have s0: "on_frame st cid [0x20, 17, 3, r3, r4, 0xEC, 0xFE, 0x00] = (st0, False)" for st
    using ctl(2,3) by (simp add: on_frame_def st0_def pyslice_def)
  have s1: "on_frame st0 id1 (s1 # c1) = (st1, False)"
    using d1(2,3) l1 by (simp add: on_frame_def st0_def st1_def Let_def pyslice_1_8)
  have s2: "on_frame st1 id2 (s2 # c2) = (st2, False)"
    using d2(2,3) l1 l2 by (simp add: on_frame_def st0_def st1_def st2_def Let_def pyslice_1_8)
  have s3: "on_frame st2 id3 (s3 # c3 @ pad) = (st3, True)"
    using d3(2,3) l1 l2 l3 by (simp add: on_frame_def st0_def st2_def st3_def Let_def pyslice_1_8)
  have w0: "receive_loop initial (cf # fs) = receive_loop st0 fs" for fs
    using ctl(1) s0 by simp
  have w1: "receive_loop st0 (f1 # fs) = receive_loop st1 fs" for fs
    using d1(1) s1 by simp
  have w2: "receive_loop st1 (f2 # fs) = receive_loop st2 fs" for fs
    using d2(1) s2 by simp
  have w3: "receive_loop st2 (f3 # fs) = Complete st3 fs" for fs
    using d3(1) s3 by simp
  have t: "take 17 (c1 @ c2 @ c3 @ pad) = c1 @ c2 @ c3"
    using l1 l2 d3(4) by simp
  have dec: "decode_ascii_ignore (c1 @ c2 @ c3) = map unat (c1 @ c2 @ c3)"
    using ascii by (intro decode_ascii_all)
  have "receive_bam_vin (cf # f1 # f2 # f3 # rest) = Returned (map unat (c1 @ c2 @ c3))"
    unfolding receive_bam_vin_def w0 w1 w2 w3 using t dec by (simp add: st3_def st0_def)
  moreover have "receive_loop initial (cf # f1 # f2 # f3 # rest) = Complete st3 rest"
    unfolding w0 w1 w2 w3 ..
  moreover have "receive_bam_vin [cf] = Blocks" "receive_bam_vin [cf, f1] = Blocks"
    "receive_bam_vin [cf, f1, f2] = Blocks"
    unfolding receive_bam_vin_def w0 w1 w2 by simp_all
  ultimately show ?thesis using l1 l2 d3(4) by (simp add: st3_def st0_def)
qed

theorem reassembly_17_in_3_witness:
  "receive_bam_vin [[0x00, 0xFF, 0xEC, 0x98, 8, 0, 0, 0, 0x20, 17, 3, 0xFF, 0xFF, 0xEC, 0xFE, 0x00]] = Blocks
   \<and> receive_bam_vin [[0x00, 0xFF, 0xEC, 0x98, 8, 0, 0, 0, 0x20, 17, 3, 0xFF, 0xFF, 0xEC, 0xFE, 0x00],
                       [0x00, 0xFF, 0xEB, 0x98, 8, 0, 0, 0, 1, 0x31, 0x48, 0x47, 0x43, 0x4D, 0x38, 0x32],
                       [0x00, 0xFF, 0xEB, 0x98, 8, 0, 0, 0, 2, 0x36, 0x33, 0x33, 0x41, 0x31, 0x32, 0x33]] = Blocks
   \<and> receive_bam_vin [[0x00, 0xFF, 0xEC, 0x98, 8, 0, 0, 0, 0x20, 17, 3, 0xFF, 0xFF, 0xEC, 0xFE, 0x00],
                       [0x00, 0xFF, 0xEB, 0x98, 8, 0, 0, 0, 1, 0x31, 0x48, 0x47, 0x43, 0x4D, 0x38, 0x32],
                       [0x00, 0xFF, 0xEB, 0x98, 8, 0, 0, 0, 2, 0x36, 0x33, 0x33, 0x41, 0x31, 0x32, 0x33],
                       [0x00, 0xFF, 0xEB, 0x98, 8, 0, 0, 0, 3, 0x34, 0x35, 0x36, 0xFF, 0xFF, 0xFF, 0xFF]]
       = Returned (str_lit ''1HGCM82633A123456'')"
proof -
  have c: "struct_unpack [0x00, 0xFF, 0xEC, 0x98, 8, 0, 0, 0, 0x20, 17, 3, 0xFF, 0xFF, 0xEC, 0xFE, 0x00]
           = Inr (0x98ECFF00, 8, [0x20, 17, 3, 0xFF, 0xFF, 0xEC, 0xFE, 0x00])"
    by (simp add: struct_unpack_def unpack_L_def)
  have d1: "struct_unpack [0x00, 0xFF, 0xEB, 0x98, 8, 0, 0, 0, 1, 0x31, 0x48, 0x47, 0x43, 0x4D, 0x38, 0x32]
           = Inr (0x98EBFF00, 8, 1 # [0x31, 0x48, 0x47, 0x43, 0x4D, 0x38, 0x32])"
    by (simp add: struct_unpack_def unpack_L_def)
  have d2: "struct_unpack [0x00, 0xFF, 0xEB, 0x98, 8, 0, 0, 0, 2, 0x36, 0x33, 0x33, 0x41, 0x31, 0x32, 0x33]
           = Inr (0x98EBFF00, 8, 2 # [0x36, 0x33, 0x33, 0x41, 0x31, 0x32, 0x33])"
    by (simp add: struct_unpack_def unpack_L_def)
  have d3: "struct_unpack [0x00, 0xFF, 0xEB, 0x98, 8, 0, 0, 0, 3, 0x34, 0x35, 0x36, 0xFF, 0xFF, 0xFF, 0xFF]
           = Inr (0x98EBFF00, 8, 3 # [0x34, 0x35, 0x36] @ [0xFF, 0xFF, 0xFF, 0xFF])"
    by (simp add: struct_unpack_def unpack_L_def)
  have pc: "pgn_of 0x98ECFF00 = 0xECFF" "src_of 0x98ECFF00 = expected_src"
    by (simp_all add: pgn_of_def src_of_def arb_id_of_def expected_src_def)
  have pd: "pgn_of 0x98EBFF00 = 0xEBFF" "src_of 0x98EBFF00 = expected_src"
    by (simp_all add: pgn_of_def src_of_def arb_id_of_def expected_src_def)
  have a: "\<forall>b \<in> set ([0x31, 0x48, 0x47, 0x43, 0x4D, 0x38, 0x32] @ [0x36, 0x33, 0x33, 0x41, 0x31, 0x32, 0x33]
             @ [0x34, 0x35, 0x36 :: byte]). b < 0x80"
    by simp
  show ?thesis
    using reassembly_17_in_3 [OF c pc d1 pd d2 pd d3 pd _ a, of "[]"]
    by (simp add: str_lit_def)
qed

lemma receive_loop_unmatched:
  "list_all unmatched mid \<Longrightarrow> receive_loop st (mid @ fs) = receive_loop st fs"
proof (induction mid)
  case Nil
  then show ?case by simp
next
  case (Cons f mid)
  from Cons.prems obtain cid dlc data where u: "struct_unpack f = Inr (cid, dlc, data)"
    and c: "src_of cid \<noteq> expected_src
          \<or> (pgn_of cid \<noteq> 0xECFF \<and> pgn_of cid \<noteq> 0xEBFF)
          \<or> (pgn_of cid = 0xECFF \<and> (data ! 0 \<noteq> 0x20 \<or> pyslice data 5 8 \<noteq> [0xEC, 0xFE, 0x00]))"
    by (auto simp add: unmatched_def split: sum.splits)
  have "on_frame st cid data = (st, False)"
    using c by (intro on_frame_ignored) blast
  with u Cons show ?case by simp
qed

text \<open>
  C10. A matching control packet that announces the total length 0 does not end the loop,
  from whatever state it is met: after it, and after any number of unmatched frames,
  the loop is still waiting, in the collecting state with an empty accumulator. The first
  matching data packet then ends it at once, and the function returns that packet's chunk
  of 7 bytes, decoded.
\<close>

theorem zero_length_needs_a_data_packet:
  assumes ctl: "struct_unpack cf = Inr (cid, dlc, [0x20, 0, n, r3, r4, 0xEC, 0xFE, 0x00])"
              "pgn_of cid = 0xECFF" "src_of cid = expected_src"
    and mid: "list_all unmatched mid"
    and dp: "struct_unpack df = Inr (did, ddlc, s # chunk)"
            "pgn_of did = 0xEBFF" "src_of did = expected_src"
  shows "receive_loop st (cf # mid)
           = Waiting \<lparr>vin_bytes = [], total_length = 0, expected_packets = unat n,
                      collecting = True, received_packets = 0\<rparr>
       \<and> receive_bam_vin (cf # mid) = Blocks
       \<and> receive_loop st (cf # mid @ df # rest)
           = Complete \<lparr>vin_bytes = chunk, total_length = 0, expected_packets = unat n,
                       collecting = True, received_packets = 1\<rparr> rest
       \<and> receive_bam_vin (cf # mid @ df # rest) = Returned (decode_ascii_ignore chunk)"
proof -
  define st0 where "st0 = \<lparr>vin_bytes = [], total_length = 0, expected_packets = unat n,
                       collecting = True, received_packets = 0\<rparr>"
  have l: "length chunk = 7" using struct_unpack_Inr [OF dp(1)] by simp
  have s0: "on_frame st' cid [0x20, 0, n, r3, r4, 0xEC, 0xFE, 0x00] = (st0, False)" for st'
    using ctl(2,3) by (simp add: on_frame_def st0_def pyslice_def)
  have s1: "on_frame st0 did (s # chunk)
            = (st0\<lparr>vin_bytes := chunk, received_packets := 1\<rparr>, True)"
    using dp(2,3) l by (simp add: on_frame_def st0_def Let_def pyslice_1_8)
  have w0: "receive_loop st' (cf # fs) = receive_loop st0 fs" for fs st'
    using ctl(1) s0 by simp
  have w1: "receive_loop st0 (df # fs)
            = Complete (st0\<lparr>vin_bytes := chunk, received_packets := 1\<rparr>) fs" for fs
    using dp(1) s1 by simp
  have m: "receive_loop st0 (mid @ fs) = receive_loop st0 fs" for fs
    using mid by (rule receive_loop_unmatched)
  have m0: "receive_loop st0 mid = Waiting st0"
    using m [of "[]"] by simp
  show ?thesis
    unfolding receive_bam_vin_def w0 m w1 m0 using l by (simp add: st0_def)
qed

theorem zero_length_needs_a_data_packet_witness:
  "receive_bam_vin [[0x00, 0xFF, 0xEC, 0x98, 8, 0, 0, 0, 0x20, 0, 1, 0xFF, 0xFF, 0xEC, 0xFE, 0x00],
                    [0x17, 0xFF, 0xEB, 0x98, 8, 0, 0, 0, 1, 0x58, 0x58, 0x58, 0x58, 0x58, 0x58, 0x58]]
     = Blocks
   \<and> receive_bam_vin [[0x00, 0xFF, 0xEC, 0x98, 8, 0, 0, 0, 0x20, 0, 1, 0xFF, 0xFF, 0xEC, 0xFE, 0x00],
                       [0x17, 0xFF, 0xEB, 0x98, 8, 0, 0, 0, 1, 0x58, 0x58, 0x58, 0x58, 0x58, 0x58, 0x58],
                       [0x00, 0xFF, 0xEB, 0x98, 8, 0, 0, 0, 1, 0x41, 0x42, 0x43, 0x44, 0x45, 0x46, 0x47]]
       = Returned (str_lit ''ABCDEFG'')"
proof -
  have c: "struct_unpack [0x00, 0xFF, 0xEC, 0x98, 8, 0, 0, 0, 0x20, 0, 1, 0xFF, 0xFF, 0xEC, 0xFE, 0x00]
           = Inr (0x98ECFF00, 8, [0x20, 0, 1, 0xFF, 0xFF, 0xEC, 0xFE, 0x00])"
    by (simp add: struct_unpack_def unpack_L_def)
  have d1: "struct_unpack [0x00, 0xFF, 0xEB, 0x98, 8, 0, 0, 0, 1, 0x41, 0x42, 0x43, 0x44, 0x45, 0x46, 0x47]
           = Inr (0x98EBFF00, 8, 1 # [0x41, 0x42, 0x43, 0x44, 0x45, 0x46, 0x47])"
    by (simp add: struct_unpack_def unpack_L_def)
  have pc: "pgn_of 0x98ECFF00 = 0xECFF" "src_of 0x98ECFF00 = expected_src"
    by (simp_all add: pgn_of_def src_of_def arb_id_of_def expected_src_def)
  have pd: "pgn_of 0x98EBFF00 = 0xEBFF" "src_of 0x98EBFF00 = expected_src"
    by (simp_all add: pgn_of_def src_of_def arb_id_of_def expected_src_def)
  have m: "list_all unmatched
             [[0x17, 0xFF, 0xEB, 0x98, 8, 0, 0, 0, 1, 0x58, 0x58, 0x58, 0x58, 0x58, 0x58, 0x58]]"
    by (simp add: unmatched_def struct_unpack_def unpack_L_def src_of_def arb_id_of_def
        expected_src_def)
  show ?thesis
    using zero_length_needs_a_data_packet [OF c pc m d1 pd, of initial "[]"]
    by (simp add: str_lit_def decode_ascii_ignore_def)
qed

text \<open>
  C1, as amended. When \<^verbatim>\<open>receive_bam_vin\<close> returns, the loop has ended in a state whose
  accumulator holds at least \<^verbatim>\<open>total_length\<close> bytes, and the value returned is the
  first 17 accumulated bytes (all of them when there are fewer), decoded as ASCII with the
  bytes from 0x80 on left out. When the announced total length is at least 17 these are the
  first \<open>min total_length 17\<close> bytes.
\<close>

theorem returned_vin_is_first_17_bytes:
  assumes "receive_bam_vin frames = Returned vin"
  shows "\<exists>st rest. receive_loop initial frames = Complete st rest
           \<and> total_length st \<le> length (vin_bytes st)
           \<and> vin = decode_ascii_ignore (take 17 (vin_bytes st))
           \<and> (17 \<le> total_length st \<longrightarrow>
                vin = decode_ascii_ignore (take (min (total_length st) 17) (vin_bytes st)))"
proof -
  from assms obtain st rest where c: "receive_loop initial frames = Complete st rest"
    and v: "vin = decode_ascii_ignore (take 17 (vin_bytes st))"
    by (auto simp add: receive_bam_vin_def split: loop_result.splits)
  from receive_loop_Complete_inv [OF c] have "total_length st \<le> length (vin_bytes st)" by simp
  with c v show ?thesis by (auto simp add: min_def)
qed

theorem returned_vin_is_first_17_bytes_witness:
  "receive_bam_vin [[0x00, 0xFF, 0xEC, 0x98, 8, 0, 0, 0, 0x20, 17, 3, 0xFF, 0xFF, 0xEC, 0xFE, 0x00],
                    [0x00, 0xFF, 0xEB, 0x98, 8, 0, 0, 0, 1, 0x31, 0x48, 0x47, 0x43, 0x4D, 0x38, 0x32],
                    [0x00, 0xFF, 0xEB, 0x98, 8, 0, 0, 0, 2, 0x36, 0x33, 0x33, 0x41, 0x31, 0x32, 0x33],
                    [0x00, 0xFF, 0xEB, 0x98, 8, 0, 0, 0, 3, 0x34, 0x35, 0x36, 0xFF, 0xFF, 0xFF, 0xFF]]
     = Returned (str_lit ''1HGCM82633A123456'')
   \<and> receive_loop initial
        [[0x00, 0xFF, 0xEC, 0x98, 8, 0, 0, 0, 0x20, 17, 3, 0xFF, 0xFF, 0xEC, 0xFE, 0x00],
         [0x00, 0xFF, 0xEB, 0x98, 8, 0, 0, 0, 1, 0x31, 0x48, 0x47, 0x43, 0x4D, 0x38, 0x32],
         [0x00, 0xFF, 0xEB, 0x98, 8, 0, 0, 0, 2, 0x36, 0x33, 0x33, 0x41, 0x31, 0x32, 0x33],
         [0x00, 0xFF, 0xEB, 0x98, 8, 0, 0, 0, 3, 0x34, 0x35, 0x36, 0xFF, 0xFF, 0xFF, 0xFF]]
       = Complete \<lparr>vin_bytes = bytes_lit ''1HGCM82633A123456'' @ [0xFF, 0xFF, 0xFF, 0xFF],
                   total_length = 17, expected_packets = 3, collecting = True,
                   received_packets = 3\<rparr> []
   \<and> str_lit ''1HGCM82633A123456''
       = decode_ascii_ignore
           (take (min 17 17) (bytes_lit ''1HGCM82633A123456'' @ [0xFF, 0xFF, 0xFF, 0xFF]))"
proof -
  let ?fs = "[[0x00, 0xFF, 0xEC, 0x98, 8, 0, 0, 0, 0x20, 17, 3, 0xFF, 0xFF, 0xEC, 0xFE, 0x00],
              [0x00, 0xFF, 0xEB, 0x98, 8, 0, 0, 0, 1, 0x31, 0x48, 0x47, 0x43, 0x4D, 0x38, 0x32],
              [0x00, 0xFF, 0xEB, 0x98, 8, 0, 0, 0, 2, 0x36, 0x33, 0x33, 0x41, 0x31, 0x32, 0x33],
              [0x00, 0xFF, 0xEB, 0x98, 8, 0, 0, 0, 3, 0x34, 0x35, 0x36, 0xFF, 0xFF, 0xFF, 0xFF :: byte]]"
  have l: "receive_loop initial ?fs
           = Complete \<lparr>vin_bytes = [0x31, 0x48, 0x47, 0x43, 0x4D, 0x38, 0x32, 0x36, 0x33, 0x33, 0x41,
                                     0x31, 0x32, 0x33, 0x34, 0x35, 0x36, 0xFF, 0xFF, 0xFF, 0xFF],
                        total_length = 17, expected_packets = 3, collecting = True,
                        received_packets = 3\<rparr> []"
    by (simp add: initial_def struct_unpack_def unpack_L_def on_frame_def
        pgn_of_def src_of_def arb_id_of_def expected_src_def pyslice_def Let_def)
  have r: "receive_bam_vin ?fs = Returned (str_lit ''1HGCM82633A123456'')"
    unfolding receive_bam_vin_def l by (simp add: decode_ascii_ignore_def str_lit_def)
  from returned_vin_is_first_17_bytes [OF r] l r show ?thesis
    by (simp add: bytes_lit_def)
qed

text \<open>
  C1 as stated fails when the announced total length is below 17: a control packet
  announcing 3 bytes and one data packet with the chunk \<^verbatim>\<open>ABCDEFG\<close> end the loop with 7
  accumulated bytes, and the function returns all 7 characters, not the first 3.
\<close>

theorem first_total_length_bytes_counterexample:
  "receive_loop initial [[0x00, 0xFF, 0xEC, 0x98, 8, 0, 0, 0, 0x20, 3, 1, 0xFF, 0xFF, 0xEC, 0xFE, 0x00],
                         [0x00, 0xFF, 0xEB, 0x98, 8, 0, 0, 0, 1, 0x41, 0x42, 0x43, 0x44, 0x45, 0x46, 0x47]]
     = Complete \<lparr>vin_bytes = bytes_lit ''ABCDEFG'', total_length = 3, expected_packets = 1,
                 collecting = True, received_packets = 1\<rparr> []
   \<and> receive_bam_vin [[0x00, 0xFF, 0xEC, 0x98, 8, 0, 0, 0, 0x20, 3, 1, 0xFF, 0xFF, 0xEC, 0xFE, 0x00],
                       [0x00, 0xFF, 0xEB, 0x98, 8, 0, 0, 0, 1, 0x41, 0x42, 0x43, 0x44, 0x45, 0x46, 0x47]]
     = Returned (str_lit ''ABCDEFG'')
   \<and> decode_ascii_ignore (take (min 3 17) (bytes_lit ''ABCDEFG'')) = str_lit ''ABC''
   \<and> str_lit ''ABCDEFG'' \<noteq> str_lit ''ABC''"
  by (simp add: receive_bam_vin_def initial_def struct_unpack_def unpack_L_def on_frame_def
      pgn_of_def src_of_def arb_id_of_def expected_src_def pyslice_def Let_def
      decode_ascii_ignore_def str_lit_def bytes_lit_def)

section \<open>Fields the reassembler stores and never reads\<close>

lemma struct_unpack_update:
  assumes u: "struct_unpack f = Inr (cid, dlc, data)" and k: "8 \<le> k"
  shows "struct_unpack (f[k := b]) = Inr (cid, dlc, data[k - 8 := b])"
proof -
  from struct_unpack_Inr [OF u] have l: "length f = 16" and d: "data = drop 8 f" by simp_all
  have "take 4 (f[k := b]) = take 4 f" using k by simp
  moreover have "f[k := b] ! 4 = f ! 4" using k by simp
  moreover have "drop 8 (f[k := b]) = (drop 8 f)[k - 8 := b]" using k by (simp add: drop_update_swap)
  ultimately show ?thesis using u l d by (simp add: struct_unpack_def)
qed

lemma variant_unpack:
  assumes v: "seq_or_count_variant f g" and u: "struct_unpack f = Inr (cid, dlc, data)"
  shows "\<exists>data'. struct_unpack g = Inr (cid, dlc, data') \<and>
           (if pgn_of cid = 0xEBFF then data' = data[0 := data' ! 0]
            else if pgn_of cid = 0xECFF \<and> data ! 0 = 0x20 then data' = data[2 := data' ! 2]
            else data' = data)"
proof -
  from struct_unpack_Inr [OF u] have l: "length f = 16" and ld: "length data = 8" by simp_all
  consider (dp) "pgn_of cid = 0xEBFF" | (cp) "pgn_of cid \<noteq> 0xEBFF" "pgn_of cid = 0xECFF \<and> data ! 0 = 0x20"
    | (other) "pgn_of cid \<noteq> 0xEBFF" "\<not> (pgn_of cid = 0xECFF \<and> data ! 0 = 0x20)" by blast
  then show ?thesis
  proof cases
    case dp
    with v u have g: "g = f[8 := g ! 8]" by (simp add: seq_or_count_variant_def)
    have "struct_unpack (f[8 := g ! 8]) = Inr (cid, dlc, data[0 := g ! 8])"
      using struct_unpack_update [OF u, of 8] by simp
    with g have s: "struct_unpack g = Inr (cid, dlc, data[0 := g ! 8])" by simp
    have "(data[0 := g ! 8]) ! 0 = g ! 8" using ld by simp
    with s dp show ?thesis by simp
  next
    case cp
    with v u have g: "g = f[10 := g ! 10]" by (simp add: seq_or_count_variant_def)
    have "struct_unpack (f[10 := g ! 10]) = Inr (cid, dlc, data[2 := g ! 10])"
      using struct_unpack_update [OF u, of 10] by simp
    with g have s: "struct_unpack g = Inr (cid, dlc, data[2 := g ! 10])" by simp
    have "(data[2 := g ! 10]) ! 2 = g ! 10" using ld by simp
    with s cp show ?thesis by simp
  next
    case other
    with v u have "g = f" by (auto simp add: seq_or_count_variant_def)
    with u other show ?thesis by auto
  qed
qed

lemma variant_unpack_fail:
  "seq_or_count_variant f g \<Longrightarrow> struct_unpack f = Inl e \<Longrightarrow> g = f"
  by (simp add: seq_or_count_variant_def)

lemma on_frame_variant:
  assumes r: "same_but_count st st'" and ld: "length data = 8"
    and d: "if pgn_of cid = 0xEBFF then data' = data[0 := x]
            else if pgn_of cid = 0xECFF \<and> data ! 0 = 0x20 then data' = data[2 := x]
            else data' = data"
  shows "same_but_count (fst (on_frame st cid data)) (fst (on_frame st' cid data'))
         \<and> snd (on_frame st cid data) = snd (on_frame st' cid data')"
proof -
  consider (dp) "pgn_of cid = 0xEBFF" | (cp) "pgn_of cid \<noteq> 0xEBFF" "pgn_of cid = 0xECFF \<and> data ! 0 = 0x20"
    | (other) "pgn_of cid \<noteq> 0xEBFF" "\<not> (pgn_of cid = 0xECFF \<and> data ! 0 = 0x20)" by blast
  then show ?thesis
  proof cases
    case dp
    with d have "data' = data[0 := x]" by simp
    then have "pyslice data' 1 8 = pyslice data 1 8" by (simp add: pyslice_def)
    with dp r show ?thesis by (simp add: on_frame_def same_but_count_def Let_def)
  next
    case cp
    with d have e: "data' = data[2 := x]" by simp
    then have "pyslice data' 5 8 = pyslice data 5 8" by (simp add: pyslice_def)
    moreover have "data' ! 0 = data ! 0" "data' ! 1 = data ! 1" using e ld by simp_all
    ultimately show ?thesis using cp r by (simp add: on_frame_def same_but_count_def Let_def)
  next
    case other
    with d have "data' = data" by simp
    with other r show ?thesis by (auto simp add: on_frame_def same_but_count_def Let_def)
  qed
qed

lemma receive_loop_variant:
  "list_all2 seq_or_count_variant fs gs \<Longrightarrow> same_but_count st st' \<Longrightarrow>
   same_result (receive_loop st fs) (receive_loop st' gs)"
proof (induction fs gs arbitrary: st st' rule: list_all2_induct)
  case Nil
  then show ?case by simp
next
  case (Cons f fs g gs)
  show ?case
  proof (cases "struct_unpack f")
    case (Inl e)
    with Cons.hyps(1) have "g = f" by (intro variant_unpack_fail)
    with Inl show ?thesis by simp
  next
    case (Inr t)
    obtain cid dlc data where t: "t = (cid, dlc, data)" by (cases t)
    with Inr have u: "struct_unpack f = Inr (cid, dlc, data)" by simp
    from variant_unpack [OF Cons.hyps(1) u] obtain data' where
      u': "struct_unpack g = Inr (cid, dlc, data')" and
      d: "if pgn_of cid = 0xEBFF then data' = data[0 := data' ! 0]
            else if pgn_of cid = 0xECFF \<and> data ! 0 = 0x20 then data' = data[2 := data' ! 2]
            else data' = data" by blast
    have ld: "length data = 8" using struct_unpack_Inr [OF u] by simp
    have d': "if pgn_of cid = 0xEBFF then data' = data[0 := (if pgn_of cid = 0xEBFF then data' ! 0 else data' ! 2)]
            else if pgn_of cid = 0xECFF \<and> data ! 0 = 0x20 then data' = data[2 := (if pgn_of cid = 0xEBFF then data' ! 0 else data' ! 2)]
            else data' = data" using d by (simp split: if_splits)
    obtain s1 b1 where o1: "on_frame st cid data = (s1, b1)" by (cases "on_frame st cid data")
    obtain s2 b2 where o2: "on_frame st' cid data' = (s2, b2)" by (cases "on_frame st' cid data'")
    from on_frame_variant [OF Cons.prems ld d'] o1 o2
    have s: "same_but_count s1 s2" and b: "b1 = b2" by simp_all
    show ?thesis
    proof (cases b1)
      case True
      with u u' o1 o2 b s Cons.hyps(2) show ?thesis by (simp add: list_all2_lengthD)
    next
      case False
      with u u' o1 o2 b Cons.IH [OF s] show ?thesis by simp
    qed
  qed
qed

text \<open>
  C9. Two frame streams of the same length whose frames are pairwise the same except for
  the sequence number of data packets and the packet count of control packets give the
  same result of \<^verbatim>\<open>receive_bam_vin\<close> (the same string, the same exception, or no return
  in both), and where it returns it has read the same number of frames.
\<close>

theorem vin_independent_of_seq_and_count:
  assumes "list_all2 seq_or_count_variant fs gs"
  shows "receive_bam_vin gs = receive_bam_vin fs \<and> frames_read gs = frames_read fs"
proof -
  have i: "same_but_count initial initial" by (simp add: same_but_count_def)
  have l: "length fs = length gs" using assms by (rule list_all2_lengthD)
  from receive_loop_variant [OF assms i] l show ?thesis
    by (cases "receive_loop initial fs"; cases "receive_loop initial gs")
       (simp_all add: receive_bam_vin_def frames_read_def same_but_count_def)
qed

theorem vin_independent_of_seq_and_count_witness:
  "receive_bam_vin [[0x00, 0xFF, 0xEC, 0x98, 8, 0, 0, 0, 0x20, 17, 9, 0xFF, 0xFF, 0xEC, 0xFE, 0x00],
                    [0x00, 0xFF, 0xEB, 0x98, 8, 0, 0, 0, 7, 0x31, 0x48, 0x47, 0x43, 0x4D, 0x38, 0x32],
                    [0x00, 0xFF, 0xEB, 0x98, 8, 0, 0, 0, 7, 0x36, 0x33, 0x33, 0x41, 0x31, 0x32, 0x33],
                    [0x00, 0xFF, 0xEB, 0x98, 8, 0, 0, 0, 0, 0x34, 0x35, 0x36, 0xFF, 0xFF, 0xFF, 0xFF]]
     = Returned (str_lit ''1HGCM82633A123456'')
   \<and> frames_read [[0x00, 0xFF, 0xEC, 0x98, 8, 0, 0, 0, 0x20, 17, 9, 0xFF, 0xFF, 0xEC, 0xFE, 0x00],
                   [0x00, 0xFF, 0xEB, 0x98, 8, 0, 0, 0, 7, 0x31, 0x48, 0x47, 0x43, 0x4D, 0x38, 0x32],
                   [0x00, 0xFF, 0xEB, 0x98, 8, 0, 0, 0, 7, 0x36, 0x33, 0x33, 0x41, 0x31, 0x32, 0x33],
                   [0x00, 0xFF, 0xEB, 0x98, 8, 0, 0, 0, 0, 0x34, 0x35, 0x36, 0xFF, 0xFF, 0xFF, 0xFF]]
     = Some 4"
proof -
  let ?fs = "[[0x00, 0xFF, 0xEC, 0x98, 8, 0, 0, 0, 0x20, 17, 3, 0xFF, 0xFF, 0xEC, 0xFE, 0x00],
              [0x00, 0xFF, 0xEB, 0x98, 8, 0, 0, 0, 1, 0x31, 0x48, 0x47, 0x43, 0x4D, 0x38, 0x32],
              [0x00, 0xFF, 0xEB, 0x98, 8, 0, 0, 0, 2, 0x36, 0x33, 0x33, 0x41, 0x31, 0x32, 0x33],
              [0x00, 0xFF, 0xEB, 0x98, 8, 0, 0, 0, 3, 0x34, 0x35, 0x36, 0xFF, 0xFF, 0xFF, 0xFF :: byte]]"
  let ?gs = "[[0x00, 0xFF, 0xEC, 0x98, 8, 0, 0, 0, 0x20, 17, 9, 0xFF, 0xFF, 0xEC, 0xFE, 0x00],
              [0x00, 0xFF, 0xEB, 0x98, 8, 0, 0, 0, 7, 0x31, 0x48, 0x47, 0x43, 0x4D, 0x38, 0x32],
              [0x00, 0xFF, 0xEB, 0x98, 8, 0, 0, 0, 7, 0x36, 0x33, 0x33, 0x41, 0x31, 0x32, 0x33],
              [0x00, 0xFF, 0xEB, 0x98, 8, 0, 0, 0, 0, 0x34, 0x35, 0x36, 0xFF, 0xFF, 0xFF, 0xFF :: byte]]"
  have v: "list_all2 seq_or_count_variant ?fs ?gs"
    by (simp add: seq_or_count_variant_def struct_unpack_def unpack_L_def pgn_of_def arb_id_of_def)
  have l: "receive_loop initial ?fs
           = Complete \<lparr>vin_bytes = [0x31, 0x48, 0x47, 0x43, 0x4D, 0x38, 0x32, 0x36, 0x33, 0x33, 0x41,
                                     0x31, 0x32, 0x33, 0x34, 0x35, 0x36, 0xFF, 0xFF, 0xFF, 0xFF],
                        total_length = 17, expected_packets = 3, collecting = True,
                        received_packets = 3\<rparr> []"
    by (simp add: initial_def struct_unpack_def unpack_L_def on_frame_def
        pgn_of_def src_of_def arb_id_of_def expected_src_def pyslice_def Let_def)
  have r: "receive_bam_vin ?fs = Returned (str_lit ''1HGCM82633A123456'')"
    unfolding receive_bam_vin_def l by (simp add: decode_ascii_ignore_def str_lit_def)
  have n: "frames_read ?fs = Some 4"
    unfolding frames_read_def l by simp
  from vin_independent_of_seq_and_count [OF v] r n show ?thesis by simp
qed

section \<open>The request frame\<close>

text \<open>
  C8, as amended. \<^verbatim>\<open>send_vin_request\<close> takes the socket and nothing else. It always
  succeeds, and hands to the socket one frame that does not depend on anything: the
  identifier 0x98EA00F9, that is the extended-format flag on the 29-bit identifier
  0x18EA00F9, whose PGN field (bits 8 to 23) is 0xEA00 and whose low byte, the one the
  reassembler reads as the source address, is 0xF9; the length 3; and the payload
  \<^verbatim>\<open>EC FE 00\<close>, the target PGN 0xFEEC with its low byte first, filled with zero bytes to
  8 bytes.
\<close>

theorem request_frame_is_constant:
  "send_vin_request sock
     = Inr (sock\<lparr>tx := tx sock @ [[0xF9, 0x00, 0xEA, 0x98, 3, 0, 0, 0,
                                    0xEC, 0xFE, 0x00, 0, 0, 0, 0, 0]]\<rparr>)
   \<and> struct_unpack [0xF9, 0x00, 0xEA, 0x98, 3, 0, 0, 0, 0xEC, 0xFE, 0x00, 0, 0, 0, 0, 0]
       = Inr (request_can_id, 3, [0xEC, 0xFE, 0x00, 0, 0, 0, 0, 0])
   \<and> request_can_id = 0x98EA00F9
   \<and> request_can_id AND CAN_EFF_FLAG = CAN_EFF_FLAG
   \<and> arb_id_of request_can_id = 0x18EA00F9
   \<and> pgn_of request_can_id = 0xEA00
   \<and> src_of request_can_id = 0xF9"
proof -
  have i: "request_can_id = 0x98EA00F9"
    by (simp add: request_can_id_def CAN_EFF_FLAG_def)
  have p: "struct_pack 0x98EA00F9 3 (ljust8 request_data)
           = Inr [0xF9, 0x00, 0xEA, 0x98, 3, 0, 0, 0, 0xEC, 0xFE, 0x00, 0, 0, 0, 0, 0]"
    by (simp add: struct_pack_def pack_L_def ljust8_def request_data_def pack_8s_def
        replicate_3 replicate_5)
  have u: "struct_unpack [0xF9, 0x00, 0xEA, 0x98, 3, 0, 0, 0, 0xEC, 0xFE, 0x00, 0, 0, 0, 0, 0]
           = Inr (0x98EA00F9, 3, [0xEC, 0xFE, 0x00, 0, 0, 0, 0, 0])"
    by (simp add: struct_unpack_def unpack_L_def)
  have f: "(0x98EA00F9 :: int) AND CAN_EFF_FLAG = CAN_EFF_FLAG"
    "arb_id_of 0x98EA00F9 = 0x18EA00F9" "pgn_of 0x98EA00F9 = 0xEA00" "src_of 0x98EA00F9 = 0xF9"
    by (simp_all add: CAN_EFF_FLAG_def arb_id_of_def pgn_of_def src_of_def)
  show ?thesis
    using p u f by (simp add: send_vin_request_def i)
qed

text \<open>
  C8 as stated has the identifier carry a destination address 0xF9 and, beside it, the
  source address of the requester, and has the construction free of side effects. The
  call changes the socket (the frame is sent), and the identifier has one byte 0xF9, in
  the source address field; the byte above it, bits 8 to 15, is 0x00. No second address
  is in it, and no input of the function reaches it.
\<close>

theorem request_identifier_counterexample:
  "send_vin_request \<lparr>rx = [], tx = []\<rparr>
     = Inr \<lparr>rx = [], tx = [[0xF9, 0x00, 0xEA, 0x98, 3, 0, 0, 0, 0xEC, 0xFE, 0x00, 0, 0, 0, 0, 0]]\<rparr>
   \<and> src_of request_can_id = 0xF9
   \<and> drop_bit 8 (arb_id_of request_can_id) AND 0xFF = 0x00"
proof -
  have i: "request_can_id = 0x98EA00F9"
    by (simp add: request_can_id_def CAN_EFF_FLAG_def)
  have p: "struct_pack 0x98EA00F9 3 (ljust8 request_data)
           = Inr [0xF9, 0x00, 0xEA, 0x98, 3, 0, 0, 0, 0xEC, 0xFE, 0x00, 0, 0, 0, 0, 0]"
    by (simp add: struct_pack_def pack_L_def ljust8_def request_data_def pack_8s_def
        replicate_3 replicate_5)
  have f: "src_of 0x98EA00F9 = 0xF9" "drop_bit 8 (arb_id_of 0x98EA00F9) AND 0xFF = 0x00"
    by (simp_all add: arb_id_of_def src_of_def)
  show ?thesis
    using p f by (simp add: send_vin_request_def i)
qed

section \<open>UTF-8 on ASCII text\<close>




lemma utf8_ascii:
  "\<forall>c\<in>set cs. c < 0x80 \<Longrightarrow>
   utf8_encode cs = Inr (map of_nat cs) \<and> utf8_decode (map of_nat cs) = Inr cs"
proof (induction cs)
  case Nil
  then show ?case by simp
next
  case (Cons c cs)
  then have c: "c < 0x80" by simp
  then have "unat (of_nat c :: byte) = c" by (simp add: unat_of_nat)
  with Cons c show ?case by (simp add: encode_char_def cons_ok_def)
qed

lemma token_decodes:
  "utf8_decode (bytes_lit ''VIN_REQUEST'') = Inr (str_lit ''VIN_REQUEST'')"
  by (simp add: bytes_lit_def str_lit_def cons_ok_def)





section \<open>The replacement of the VIN\<close>

lemma modified_vin_ascii:
  "\<forall>c\<in>set v. c < 0x80 \<Longrightarrow> \<forall>c\<in>set (modified_vin v). c < 0x80"
  by (auto simp add: modified_vin_def str_lit_def dest: in_set_takeD)

lemma length_modified_vin: "length (modified_vin v) = min (length v) 10 + 9"
  by (simp add: modified_vin_def str_lit_def)

text \<open>
  C2, as amended. For every string \<open>v\<close> of at least 10 characters the shim's replacement
  is the first 10 characters of \<open>v\<close> followed by \<^verbatim>\<open>HACKED123\<close>, a string of 19 characters,
  and it is \<open>v\<close> itself exactly when the characters of \<open>v\<close> from the eleventh on are
  \<^verbatim>\<open>HACKED123\<close>; for every other \<open>v\<close>, among them every string that is not 19
  characters long, it differs from \<open>v\<close>.
\<close>

theorem modified_vin_rule:
  assumes "10 \<le> length v"
  shows "modified_vin v = pyslice v 0 10 @ str_lit ''HACKED123''
       \<and> length (modified_vin v) = 19
       \<and> (modified_vin v = v \<longleftrightarrow> drop 10 v = str_lit ''HACKED123'')"
proof -
  have "take 10 v @ str_lit ''HACKED123'' = v \<longleftrightarrow> drop 10 v = str_lit ''HACKED123''"
    by (metis append_take_drop_id same_append_eq)
  with assms show ?thesis
    by (simp add: modified_vin_def pyslice_def length_modified_vin str_lit_def)
qed

theorem modified_vin_rule_witness:
  "modified_vin (str_lit ''1HGCM82633A123456'') = str_lit ''1HGCM82633HACKED123''
   \<and> modified_vin (str_lit ''1HGCM82633A123456'') \<noteq> str_lit ''1HGCM82633A123456''"
  using modified_vin_rule [of "str_lit ''1HGCM82633A123456''"]
  by (simp add: str_lit_def pyslice_def)

text \<open>
  C2 as stated fails on a string that already ends in the marker, such as the answer of
  another shim: \<^verbatim>\<open>0123456789HACKED123\<close> has more than 10 characters and is its own
  replacement.
\<close>

theorem modified_vin_fixed_point_counterexample:
  "10 \<le> length (str_lit ''0123456789HACKED123'')
   \<and> modified_vin (str_lit ''0123456789HACKED123'') = str_lit ''0123456789HACKED123''"
  by (simp add: modified_vin_def str_lit_def)

section \<open>The sessions\<close>

lemma take_token: "take 1024 (bytes_lit ''VIN_REQUEST'') = bytes_lit ''VIN_REQUEST''"
  by (simp add: bytes_lit_def)

lemma get_vin_from_can_eq: "get_vin_from_can bus_frames = receive_bam_vin bus_frames"
proof -
  have "struct_pack request_can_id 3 (ljust8 request_data)
        = Inr [0xF9, 0x00, 0xEA, 0x98, 3, 0, 0, 0, 0xEC, 0xFE, 0x00, 0, 0, 0, 0, 0]"
    by (simp add: struct_pack_def request_can_id_def CAN_EFF_FLAG_def pack_L_def ljust8_def
        request_data_def pack_8s_def replicate_3 replicate_5)
  then show ?thesis by (simp add: get_vin_from_can_def send_vin_request_def)
qed

lemma decode_ascii_ignore_ascii: "\<forall>c\<in>set (decode_ascii_ignore bs). c < 0x80"
  by (auto simp add: decode_ascii_ignore_def word_less_nat_alt)

lemma length_decode_ascii_ignore: "length (decode_ascii_ignore bs) \<le> length bs"
  by (simp add: decode_ascii_ignore_def)

lemma returned_vin_ascii:
  assumes "receive_bam_vin frames = Returned vin"
  shows "(\<forall>c\<in>set vin. c < 0x80) \<and> length vin \<le> 17"
proof (cases "receive_loop initial frames")
  case (Complete st rest)
  with assms have v: "vin = decode_ascii_ignore (take 17 (vin_bytes st))"
    by (simp add: receive_bam_vin_def)
  have "length vin \<le> length (take 17 (vin_bytes st))"
    unfolding v by (rule length_decode_ascii_ignore)
  then have "length vin \<le> 17" by simp
  with v decode_ascii_ignore_ascii show ?thesis by blast
next
  case (Waiting st)
  with assms show ?thesis by (simp add: receive_bam_vin_def)
next
  case (Failed e)
  with assms show ?thesis by (simp add: receive_bam_vin_def)
qed







text \<open>
  C6. The shim in front of \<^verbatim>\<open>actualdll_socket_server\<close>, for any frames on the bus with
  which the retrieval returns a VIN: on the request \<^verbatim>\<open>VIN_REQUEST\<close> the shim writes the
  same request to the endpoint behind it, which answers with the VIN; the shim decodes the
  answer to that VIN and writes back to its client the encoding of the replacement
  \<^verbatim>\<open>real_vin[:10] + "HACKED123"\<close>, which is what the client's \<^verbatim>\<open>recv\<close> returns. Neither as
  bytes nor as text is it the VIN the endpoint answered with.
\<close>

theorem shim_returns_modified_vin:
  assumes "get_vin_from_can bus_frames = Returned vin"
  shows "actualdll_socket_server (bytes_lit ''VIN_REQUEST'') bus_frames
           = \<lparr>replied = [map of_nat vin], retrievals = 1, forwarded = [], ending = Closed\<rparr>
       \<and> utf8_decode (map of_nat vin) = Inr vin
       \<and> utf8_encode (modified_vin vin) = Inr (map of_nat (modified_vin vin))
       \<and> shimdll_socket_server (bytes_lit ''VIN_REQUEST'') (actualdll_peer bus_frames)
           = \<lparr>replied = [map of_nat (modified_vin vin)], retrievals = 0,
              forwarded = [bytes_lit ''VIN_REQUEST''], ending = Closed\<rparr>
       \<and> client_recv (bytes_lit ''VIN_REQUEST'')
             (shimdll_socket_server (bytes_lit ''VIN_REQUEST'') (actualdll_peer bus_frames))
           = Returned (map of_nat (modified_vin vin))
       \<and> (map of_nat (modified_vin vin) :: bytes) \<noteq> map of_nat vin
       \<and> modified_vin vin \<noteq> vin"
proof -
  from assms have r: "receive_bam_vin bus_frames = Returned vin"
    by (simp add: get_vin_from_can_eq)
  from returned_vin_ascii [OF r] have a: "\<forall>c\<in>set vin. c < 0x80" and l: "length vin \<le> 17"
    by simp_all
  from utf8_ascii [OF a] have e: "utf8_encode vin = Inr (map of_nat vin)"
    and d: "utf8_decode (map of_nat vin) = Inr vin" by simp_all
  from utf8_ascii [OF modified_vin_ascii [OF a]]
  have em: "utf8_encode (modified_vin vin) = Inr (map of_nat (modified_vin vin))" by simp
  have s: "actualdll_socket_server (bytes_lit ''VIN_REQUEST'') bus_frames
           = \<lparr>replied = [map of_nat vin], retrievals = 1, forwarded = [], ending = Closed\<rparr>"
    by (simp add: actualdll_socket_server_def take_token token_decodes assms e)
  have p: "actualdll_peer bus_frames (bytes_lit ''VIN_REQUEST'') = Replies (map of_nat vin)"
    by (simp add: actualdll_peer_def s)
  have t: "take 1024 (map of_nat vin :: bytes) = map of_nat vin" using l by simp
  have m: "shimdll_socket_server (bytes_lit ''VIN_REQUEST'') (actualdll_peer bus_frames)
           = \<lparr>replied = [map of_nat (modified_vin vin)], retrievals = 0,
              forwarded = [bytes_lit ''VIN_REQUEST''], ending = Closed\<rparr>"
    by (simp add: shimdll_socket_server_def take_token token_decodes p t d em)
  have lm: "length (modified_vin vin) \<noteq> length vin"
    using l by (simp add: length_modified_vin)
  then have n: "modified_vin vin \<noteq> vin" by auto
  have nb: "(map of_nat (modified_vin vin) :: bytes) \<noteq> map of_nat vin"
    using lm by (metis length_map)
  have lt: "length (modified_vin vin) \<le> 1024" by (simp add: length_modified_vin)
  have ne: "modified_vin vin \<noteq> []" by (simp add: modified_vin_def str_lit_def)
  have c: "client_recv (bytes_lit ''VIN_REQUEST'')
             (shimdll_socket_server (bytes_lit ''VIN_REQUEST'') (actualdll_peer bus_frames))
           = Returned (map of_nat (modified_vin vin))"
    unfolding m using lt ne by (simp add: client_recv_def)
  from s d em m c nb n show ?thesis by simp
qed

theorem shim_returns_modified_vin_witness:
  "get_vin_from_can
     [[0x00, 0xFF, 0xEC, 0x98, 8, 0, 0, 0, 0x20, 17, 3, 0xFF, 0xFF, 0xEC, 0xFE, 0x00],
      [0x00, 0xFF, 0xEB, 0x98, 8, 0, 0, 0, 1, 0x31, 0x48, 0x47, 0x43, 0x4D, 0x38, 0x32],
      [0x00, 0xFF, 0xEB, 0x98, 8, 0, 0, 0, 2, 0x36, 0x33, 0x33, 0x41, 0x31, 0x32, 0x33],
      [0x00, 0xFF, 0xEB, 0x98, 8, 0, 0, 0, 3, 0x34, 0x35, 0x36, 0xFF, 0xFF, 0xFF, 0xFF]]
     = Returned (str_lit ''1HGCM82633A123456'')
   \<and> actualdll_socket_server (bytes_lit ''VIN_REQUEST'')
       [[0x00, 0xFF, 0xEC, 0x98, 8, 0, 0, 0, 0x20, 17, 3, 0xFF, 0xFF, 0xEC, 0xFE, 0x00],
        [0x00, 0xFF, 0xEB, 0x98, 8, 0, 0, 0, 1, 0x31, 0x48, 0x47, 0x43, 0x4D, 0x38, 0x32],
        [0x00, 0xFF, 0xEB, 0x98, 8, 0, 0, 0, 2, 0x36, 0x33, 0x33, 0x41, 0x31, 0x32, 0x33],
        [0x00, 0xFF, 0xEB, 0x98, 8, 0, 0, 0, 3, 0x34, 0x35, 0x36, 0xFF, 0xFF, 0xFF, 0xFF]]
       = \<lparr>replied = [bytes_lit ''1HGCM82633A123456''], retrievals = 1, forwarded = [],
          ending = Closed\<rparr>
   \<and> shimdll_socket_server (bytes_lit ''VIN_REQUEST'')
       (actualdll_peer
         [[0x00, 0xFF, 0xEC, 0x98, 8, 0, 0, 0, 0x20, 17, 3, 0xFF, 0xFF, 0xEC, 0xFE, 0x00],
          [0x00, 0xFF, 0xEB, 0x98, 8, 0, 0, 0, 1, 0x31, 0x48, 0x47, 0x43, 0x4D, 0x38, 0x32],
          [0x00, 0xFF, 0xEB, 0x98, 8, 0, 0, 0, 2, 0x36, 0x33, 0x33, 0x41, 0x31, 0x32, 0x33],
          [0x00, 0xFF, 0xEB, 0x98, 8, 0, 0, 0, 3, 0x34, 0x35, 0x36, 0xFF, 0xFF, 0xFF, 0xFF]])
       = \<lparr>replied = [bytes_lit ''1HGCM82633HACKED123''], retrievals = 0,
          forwarded = [bytes_lit ''VIN_REQUEST''], ending = Closed\<rparr>"
proof -
  let ?fs = "[[0x00, 0xFF, 0xEC, 0x98, 8, 0, 0, 0, 0x20, 17, 3, 0xFF, 0xFF, 0xEC, 0xFE, 0x00],
              [0x00, 0xFF, 0xEB, 0x98, 8, 0, 0, 0, 1, 0x31, 0x48, 0x47, 0x43, 0x4D, 0x38, 0x32],
              [0x00, 0xFF, 0xEB, 0x98, 8, 0, 0, 0, 2, 0x36, 0x33, 0x33, 0x41, 0x31, 0x32, 0x33],
              [0x00, 0xFF, 0xEB, 0x98, 8, 0, 0, 0, 3, 0x34, 0x35, 0x36, 0xFF, 0xFF, 0xFF, 0xFF :: byte]]"
  have l: "receive_loop initial ?fs
           = Complete \<lparr>vin_bytes = [0x31, 0x48, 0x47, 0x43, 0x4D, 0x38, 0x32, 0x36, 0x33, 0x33, 0x41,
                                     0x31, 0x32, 0x33, 0x34, 0x35, 0x36, 0xFF, 0xFF, 0xFF, 0xFF],
                        total_length = 17, expected_packets = 3, collecting = True,
                        received_packets = 3\<rparr> []"
    by (simp add: initial_def struct_unpack_def unpack_L_def on_frame_def
        pgn_of_def src_of_def arb_id_of_def expected_src_def pyslice_def Let_def)
  have r: "receive_bam_vin ?fs = Returned (str_lit ''1HGCM82633A123456'')"
    unfolding receive_bam_vin_def l by (simp add: decode_ascii_ignore_def str_lit_def)
  have g: "get_vin_from_can ?fs = Returned (str_lit ''1HGCM82633A123456'')"
    using r by (simp add: get_vin_from_can_eq)
  have a: "map of_nat (str_lit ''1HGCM82633A123456'') = bytes_lit ''1HGCM82633A123456''"
    by (simp add: str_lit_def bytes_lit_def)
  have m: "map of_nat (modified_vin (str_lit ''1HGCM82633A123456'')) = bytes_lit ''1HGCM82633HACKED123''"
    by (simp add: modified_vin_def str_lit_def bytes_lit_def)
  from shim_returns_modified_vin [OF g] g show ?thesis
    unfolding a m by simp
qed

end
